theory Spec2Isabelle
  imports Main
begin

section \<open>The manager's state\<close>

text \<open>
  The development follows \<^verbatim>\<open>src/core/redis_manager.py\<close>. Durations and clock
  readings are integers counted in milliseconds, so \<^verbatim>\<open>asyncio.sleep(0.1)\<close> is a
  sleep of 100 and a lock timeout of 2 seconds is 2000. The event-loop clock is
  idealised: a sleep lasts exactly as long as asked and everything else takes no time.
\<close>

datatype error = ConnectionError | ResponseError | TypeError | ValueError

text \<open>
  The values of \<^verbatim>\<open>_local_cache\<close>: the cache operations store strings, the
  concurrency counters store Python integers in the same dictionary.
\<close>

datatype pyval = PStr string | PInt int

text \<open>
  The coroutines started with \<^verbatim>\<open>asyncio.create_task\<close>:
  \<^verbatim>\<open>_auto_release_local_lock(key, timeout)\<close> and
  \<^verbatim>\<open>_auto_expire_local_cache(key, ex)\<close>. Each is kept with the clock reading at
  which its sleep ends.
\<close>

datatype task = AutoReleaseLocalLock string | AutoExpireLocalCache string

text \<open>
  \<open>client\<close> is \<^verbatim>\<open>self._client is not None\<close>; \<open>local_lock\<close> tells whether the
  \<^verbatim>\<open>asyncio.Lock\<close> \<^verbatim>\<open>_local_lock\<close> is held. The remote store is part of the
  state: \<open>redis\<close> maps a key to its value and its absolute expiry, if it has one, and
  \<open>redis_up\<close> tells whether a call to the server succeeds or raises. \<open>now\<close> is the
  event-loop clock and \<open>tasks\<close> the deferred coroutines that have not run yet.
\<close>

record world =
  client :: bool
  initialized :: bool
  local_locks :: "string \<rightharpoonup> string"
  local_cache :: "string \<rightharpoonup> pyval"
  local_lock :: bool
  redis :: "string \<rightharpoonup> (string \<times> int option)"
  redis_up :: bool
  now :: int
  tasks :: "(int \<times> task) list"

text \<open>
  The two values read from \<^verbatim>\<open>config\<close>, whose module is not among the sources:
  they are parameters of the operations that read them.
\<close>

record config =
  redis_enabled :: bool
  redis_lock_timeout :: int

text \<open>\<^verbatim>\<open>RedisManager.__init__\<close>, on a given remote store and clock.\<close>

definition init_manager :: "(string \<rightharpoonup> (string \<times> int option)) \<Rightarrow> bool \<Rightarrow> int \<Rightarrow> world" where
  "init_manager store up t =
     \<lparr>client = False, initialized = False, local_locks = Map.empty,
      local_cache = Map.empty, local_lock = False, redis = store, redis_up = up,
      now = t, tasks = []\<rparr>"

text \<open>Python's \<^verbatim>\<open>x or d\<close> on an optional number: \<^verbatim>\<open>None\<close> and 0 are falsy.\<close>

definition py_or :: "int option \<Rightarrow> int \<Rightarrow> int" where
  "py_or x d = (case x of None \<Rightarrow> d | Some v \<Rightarrow> if v = 0 then d else v)"

section \<open>The remote store\<close>

text \<open>
  Modelled from the spec: the client of the remote key-value service is a library
  outside the repository. Section 6 of the specification gives its contract:
  conditional set with expiry, atomic compare-and-delete, get, set, delete, exists,
  and atomic increment and decrement returning the new value. Other clients of the
  same server are not modelled: the store changes by this process's calls and by
  the expiry of its entries only. A call raises \<open>ConnectionError\<close> when the server
  cannot be reached.
\<close>

definition redis_lookup :: "world \<Rightarrow> string \<Rightarrow> string option" where
  "redis_lookup w k =
     (case redis w k of
        None \<Rightarrow> None
      | Some (v, None) \<Rightarrow> Some v
      | Some (v, Some e) \<Rightarrow> if now w < e then Some v else None)"

definition redis_ttl :: "world \<Rightarrow> string \<Rightarrow> int option" where
  "redis_ttl w k =
     (case redis w k of
        None \<Rightarrow> None
      | Some (v, None) \<Rightarrow> None
      | Some (v, Some e) \<Rightarrow> if now w < e then Some e else None)"

definition client_ping :: "world \<Rightarrow> error + unit" where
  "client_ping w = (if redis_up w then Inr () else Inl ConnectionError)"

text \<open>\<^verbatim>\<open>set(key, value, nx=True, ex=ttl)\<close>: the conditional set.\<close>

definition client_set_nx :: "string \<Rightarrow> string \<Rightarrow> int \<Rightarrow> world \<Rightarrow> error + (bool \<times> world)" where
  "client_set_nx k v ttl w =
     (if \<not> redis_up w then Inl ConnectionError
      else if redis_lookup w k \<noteq> None then Inr (False, w)
      else Inr (True, w\<lparr>redis := (redis w)(k \<mapsto> (v, Some (now w + ttl)))\<rparr>))"

text \<open>\<^verbatim>\<open>set(key, value, ex=ex)\<close>, where \<^verbatim>\<open>ex\<close> may be \<^verbatim>\<open>None\<close>.\<close>

definition client_set :: "string \<Rightarrow> string \<Rightarrow> int option \<Rightarrow> world \<Rightarrow> error + (bool \<times> world)" where
  "client_set k v ex w =
     (if \<not> redis_up w then Inl ConnectionError
      else Inr (True, w\<lparr>redis := (redis w)(k \<mapsto> (v, map_option (\<lambda>d. now w + d) ex))\<rparr>))"

definition client_get :: "string \<Rightarrow> world \<Rightarrow> error + string option" where
  "client_get k w = (if \<not> redis_up w then Inl ConnectionError else Inr (redis_lookup w k))"

definition client_exists :: "string \<Rightarrow> world \<Rightarrow> error + int" where
  "client_exists k w =
     (if \<not> redis_up w then Inl ConnectionError
      else Inr (if redis_lookup w k \<noteq> None then 1 else 0))"

definition client_delete :: "string \<Rightarrow> world \<Rightarrow> error + (int \<times> world)" where
  "client_delete k w =
     (if \<not> redis_up w then Inl ConnectionError
      else if redis_lookup w k \<noteq> None then Inr (1, w\<lparr>redis := (redis w)(k := None)\<rparr>)
      else Inr (0, w\<lparr>redis := (redis w)(k := None)\<rparr>))"


section \<open>Lock release\<close>

definition lock_key_of :: "string \<Rightarrow> string" where
  "lock_key_of key = ''lock:'' @ key"



section \<open>Lifecycle\<close>

text \<open>
  \<^verbatim>\<open>initialize\<close>. With the feature disabled it sets \<^verbatim>\<open>_initialized\<close> and
  returns \<^verbatim>\<open>False\<close>, leaving \<^verbatim>\<open>_client\<close> as it was. Otherwise it assigns the
  client and pings the server; every exception raised in the \<^verbatim>\<open>try\<close> block is
  caught, the client is reset to \<^verbatim>\<open>None\<close> and \<^verbatim>\<open>False\<close> is returned.
\<close>

definition initialize :: "config \<Rightarrow> world \<Rightarrow> bool \<times> world" where
  "initialize cfg w =
     (if \<not> redis_enabled cfg then (False, w\<lparr>initialized := True\<rparr>)
      else
        (case client_ping (w\<lparr>client := True\<rparr>) of
           Inr u \<Rightarrow> (True, w\<lparr>client := True, initialized := True\<rparr>)
         | Inl e \<Rightarrow> (False, w\<lparr>client := False, initialized := True\<rparr>)))"

definition close :: "world \<Rightarrow> world" where
  "close w =
     (if client w then w\<lparr>client := False, initialized := False\<rparr>
      else w\<lparr>initialized := False\<rparr>)"

definition is_connected :: "world \<Rightarrow> bool" where
  "is_connected w = client w"

section \<open>Deferred coroutines and the passing of time\<close>

text \<open>
  What a deferred coroutine does once its sleep is over.
  \<^verbatim>\<open>_auto_release_local_lock\<close> deletes the key from \<^verbatim>\<open>_local_locks\<close> if it is
  there, inside \<^verbatim>\<open>async with self._local_lock\<close>;
  \<^verbatim>\<open>_auto_expire_local_cache\<close> deletes the key from \<^verbatim>\<open>_local_cache\<close> if it is
  there, without taking the lock.
\<close>

fun run_task :: "task \<Rightarrow> world \<Rightarrow> world" where
  "run_task (AutoReleaseLocalLock k) w =
     (if local_locks w k \<noteq> None then w\<lparr>local_locks := (local_locks w)(k := None)\<rparr> else w)"
| "run_task (AutoExpireLocalCache k) w =
     (if local_cache w k \<noteq> None then w\<lparr>local_cache := (local_cache w)(k := None)\<rparr> else w)"

text \<open>
  A coroutine that needs \<^verbatim>\<open>_local_lock\<close> cannot go on while another coroutine
  holds it: it stays suspended at its \<^verbatim>\<open>async with\<close>.
\<close>

fun runnable :: "bool \<Rightarrow> task \<Rightarrow> bool" where
  "runnable held (AutoReleaseLocalLock k) = (\<not> held)"
| "runnable held (AutoExpireLocalCache k) = True"

definition is_due :: "int \<Rightarrow> bool \<Rightarrow> int \<times> task \<Rightarrow> bool" where
  "is_due t held p = (fst p \<le> t \<and> runnable held (snd p))"

fun run_tasks :: "(int \<times> task) list \<Rightarrow> world \<Rightarrow> world" where
  "run_tasks [] w = w"
| "run_tasks (p # ps) w = run_tasks ps (run_task (snd p) w)"

text \<open>
  \<^verbatim>\<open>await asyncio.sleep(d)\<close>, seen from the coroutine that sleeps: the clock moves
  on by \<open>d\<close> and every deferred coroutine whose own sleep has ended by then, and
  which is not kept waiting for \<^verbatim>\<open>_local_lock\<close>, has run. The deferred coroutines
  only delete keys, so the order in which they run makes no difference to the
  result; they are run in the order of their creation.
\<close>

definition sleep :: "int \<Rightarrow> world \<Rightarrow> world" where
  "sleep d w =
     (let t = now w + d in
      run_tasks (filter (is_due t (local_lock w)) (tasks w))
        (w\<lparr>now := t, tasks := filter (\<lambda>p. \<not> is_due t (local_lock w) p) (tasks w)\<rparr>))"

lemma run_task_now [simp]: "now (run_task a w) = now w"
  by (cases a) simp_all

lemma run_tasks_now [simp]: "now (run_tasks ps w) = now w"
  by (induction ps arbitrary: w) simp_all

lemma sleep_now [simp]: "now (sleep d w) = now w + d"
  by (simp add: sleep_def Let_def)

lemma client_set_nx_now:
  "client_set_nx k v ttl w = Inr (b, w') \<Longrightarrow> now w' = now w"
  by (auto simp: client_set_nx_def split: if_splits)

section \<open>Lock acquisition\<close>

text \<open>
  The remote branch of \<^verbatim>\<open>acquire_lock\<close>: the \<^verbatim>\<open>while True\<close> loop. An exception
  of the conditional set is not caught and leaves the function.
\<close>

function acquire_remote ::
  "string \<Rightarrow> string \<Rightarrow> int \<Rightarrow> bool \<Rightarrow> int \<Rightarrow> int \<Rightarrow> world \<Rightarrow> error + (string option \<times> world)" where
  "acquire_remote lock_key lock_value timeout blocking wait_timeout start_time w =
     (case client_set_nx lock_key lock_value timeout w of
        Inl e \<Rightarrow> Inl e
      | Inr (acquired, w1) \<Rightarrow>
          if acquired then Inr (Some lock_value, w1)
          else if \<not> blocking then Inr (None, w1)
          else if now w1 - start_time \<ge> wait_timeout then Inr (None, w1)
          else acquire_remote lock_key lock_value timeout blocking wait_timeout start_time
                 (sleep 100 w1))"
  by pat_completeness auto
termination
  by (relation "measure (\<lambda>(lk, lv, ttl, b, wt, st, w). nat (st + wt - now w))")
     (auto dest: client_set_nx_now)

text \<open>
  The waiting loop of the local branch,
  \<^verbatim>\<open>while lock_key in self._local_locks\<close>, which runs inside
  \<^verbatim>\<open>async with self._local_lock\<close>. The first component tells whether the loop was
  left by \<^verbatim>\<open>return None\<close>.
\<close>

function local_wait :: "string \<Rightarrow> int \<Rightarrow> int \<Rightarrow> world \<Rightarrow> bool \<times> world" where
  "local_wait lock_key wait_timeout start_time w =
     (if local_locks w lock_key \<noteq> None then
        (let w1 = sleep 100 w in
         if now w1 - start_time \<ge> wait_timeout then (True, w1)
         else local_wait lock_key wait_timeout start_time w1)
      else (False, w))"
  by pat_completeness auto
termination
  by (relation "measure (\<lambda>(lk, wt, st, w). nat (st + wt - now w))") auto

text \<open>
  The local branch of \<^verbatim>\<open>acquire_lock\<close>. \<^verbatim>\<open>_local_lock\<close> is taken on entry and
  given back on every way out. \<open>local_take\<close> is the end of the branch: the record
  is written, the auto-release coroutine is created and the lock value returned.
\<close>

definition local_take :: "string \<Rightarrow> string \<Rightarrow> int \<Rightarrow> world \<Rightarrow> string option \<times> world" where
  "local_take lock_key lock_value timeout w =
     (Some lock_value,
      w\<lparr>local_locks := (local_locks w)(lock_key \<mapsto> lock_value),
        tasks := tasks w @ [(now w + timeout, AutoReleaseLocalLock lock_key)],
        local_lock := False\<rparr>)"

definition acquire_local ::
  "string \<Rightarrow> string \<Rightarrow> int \<Rightarrow> bool \<Rightarrow> int \<Rightarrow> world \<Rightarrow> string option \<times> world" where
  "acquire_local lock_key lock_value timeout blocking wait_timeout w =
     (let w1 = w\<lparr>local_lock := True\<rparr> in
      if local_locks w1 lock_key \<noteq> None then
        (if \<not> blocking then (None, w1\<lparr>local_lock := False\<rparr>)
         else
           (case local_wait lock_key wait_timeout (now w1) w1 of
              (True, w2) \<Rightarrow> (None, w2\<lparr>local_lock := False\<rparr>)
            | (False, w2) \<Rightarrow> local_take lock_key lock_value timeout w2))
      else local_take lock_key lock_value timeout w1)"

text \<open>
  \<^verbatim>\<open>acquire_lock\<close>. \<open>lock_value\<close> stands for the result of
  \<^verbatim>\<open>str(uuid.uuid4())\<close>, which the caller of the model supplies.
\<close>

definition acquire_lock ::
  "config \<Rightarrow> string \<Rightarrow> string \<Rightarrow> int option \<Rightarrow> bool \<Rightarrow> int option \<Rightarrow> world
     \<Rightarrow> error + (string option \<times> world)" where
  "acquire_lock cfg lock_value key timeout blocking wait_timeout w =
     (let lock_key = lock_key_of key;
          timeout1 = py_or timeout (redis_lock_timeout cfg);
          wait_timeout1 = py_or wait_timeout timeout1
      in if client w
         then acquire_remote lock_key lock_value timeout1 blocking wait_timeout1 (now w) w
         else Inr (acquire_local lock_key lock_value timeout1 blocking wait_timeout1 w))"

definition is_locked :: "string \<Rightarrow> world \<Rightarrow> error + bool" where
  "is_locked key w =
     (let lock_key = lock_key_of key in
      if client w then
        (case client_exists lock_key w of Inl e \<Rightarrow> Inl e | Inr n \<Rightarrow> Inr (n > 0))
      else Inr (local_locks w lock_key \<noteq> None))"

declare acquire_remote.simps [simp del] local_wait.simps [simp del]

section \<open>Cache operations\<close>

text \<open>
  The remote client decodes responses, so a remote \<^verbatim>\<open>get\<close> returns a string; the
  local one returns whatever the dictionary holds.
\<close>

definition get :: "string \<Rightarrow> world \<Rightarrow> error + pyval option" where
  "get key w =
     (if client w then
        (case client_get key w of Inl e \<Rightarrow> Inl e | Inr r \<Rightarrow> Inr (map_option PStr r))
      else Inr (local_cache w key))"

text \<open>
  \<^verbatim>\<open>set\<close>. The local branch creates the expiry coroutine under \<^verbatim>\<open>if ex:\<close>, that is
  when \<^verbatim>\<open>ex\<close> is neither \<^verbatim>\<open>None\<close> nor 0.
\<close>

definition set_cache :: "string \<Rightarrow> string \<Rightarrow> int option \<Rightarrow> world \<Rightarrow> error + (bool \<times> world)" where
  "set_cache key val ex w =
     (if client w then client_set key val ex w
      else
        (let w1 = w\<lparr>local_cache := (local_cache w)(key \<mapsto> PStr val)\<rparr> in
         case ex of
           None \<Rightarrow> Inr (True, w1)
         | Some d \<Rightarrow>
             if d = 0 then Inr (True, w1)
             else Inr (True, w1\<lparr>tasks := tasks w1 @ [(now w1 + d, AutoExpireLocalCache key)]\<rparr>)))"

definition delete :: "string \<Rightarrow> world \<Rightarrow> error + (bool \<times> world)" where
  "delete key w =
     (if client w then
        (case client_delete key w of Inl e \<Rightarrow> Inl e | Inr (n, w') \<Rightarrow> Inr (n > 0, w'))
      else
        (if local_cache w key \<noteq> None
         then Inr (True, w\<lparr>local_cache := (local_cache w)(key := None)\<rparr>)
         else Inr (False, w)))"

definition exists_cache :: "string \<Rightarrow> world \<Rightarrow> error + bool" where
  "exists_cache key w =
     (if client w then
        (case client_exists key w of Inl e \<Rightarrow> Inl e | Inr n \<Rightarrow> Inr (n > 0))
      else Inr (local_cache w key \<noteq> None))"

section \<open>The Cloudflare refresh lock\<close>

definition acquire_cf_lock :: "config \<Rightarrow> string \<Rightarrow> int \<Rightarrow> world \<Rightarrow> error + (bool \<times> world)" where
  "acquire_cf_lock cfg lock_value timeout w =
     (case acquire_lock cfg lock_value ''cf:refresh'' (Some timeout) False None w of
        Inl e \<Rightarrow> Inl e
      | Inr (r, w') \<Rightarrow> Inr (r \<noteq> None, w'))"

text \<open>
  \<^verbatim>\<open>release_cf_lock\<close> takes no lock value. Its comment reads
  \<^verbatim>\<open># For CF lock, we just delete the key\<close>.
\<close>

definition release_cf_lock :: "world \<Rightarrow> error + world" where
  "release_cf_lock w =
     (if client w then
        (case client_delete ''lock:cf:refresh'' w of Inl e \<Rightarrow> Inl e | Inr (n, w') \<Rightarrow> Inr w')
      else
        (if local_locks w ''lock:cf:refresh'' \<noteq> None
         then Inr (w\<lparr>local_locks := (local_locks w)(''lock:cf:refresh'' := None)\<rparr>)
         else Inr w))"

text \<open>\<^verbatim>\<open>RedisCFLock.release_lock\<close> of \<^verbatim>\<open>src/services/redis_lock.py\<close>.\<close>

definition RedisCFLock_release_lock :: "config \<Rightarrow> world \<Rightarrow> error + world" where
  "RedisCFLock_release_lock cfg w =
     release_cf_lock (if \<not> initialized w then snd (initialize cfg w) else w)"

text \<open>\<^verbatim>\<open>RedisCFLock.acquire_lock\<close> of the same file.\<close>

definition RedisCFLock_acquire_lock ::
  "config \<Rightarrow> string \<Rightarrow> int \<Rightarrow> world \<Rightarrow> error + (bool \<times> world)" where
  "RedisCFLock_acquire_lock cfg lock_value timeout w =
     acquire_cf_lock cfg lock_value timeout
       (if \<not> initialized w then snd (initialize cfg w) else w)"

definition is_cf_refreshing :: "world \<Rightarrow> error + bool" where
  "is_cf_refreshing w = exists_cache ''cf:refreshing'' w"

definition set_cf_refreshing :: "bool \<Rightarrow> int \<Rightarrow> world \<Rightarrow> error + (bool \<times> world)" where
  "set_cf_refreshing val ttl w =
     (if val then set_cache ''cf:refreshing'' ''1'' (Some ttl) w else delete ''cf:refreshing'' w)"

section \<open>Concurrency counters\<close>

text \<open>
  Python's \<^verbatim>\<open>str\<close> of an integer, used by the f-string that builds a counter's
  key and by the remote store, which keeps numbers as decimal strings.
\<close>

definition digit_char :: "nat \<Rightarrow> char" where
  "digit_char d = ''0123456789'' ! d"

function str_nat :: "nat \<Rightarrow> string" where
  "str_nat n = (if n < 10 then [digit_char n] else str_nat (n div 10) @ [digit_char (n mod 10)])"
  by pat_completeness auto
termination
  by (relation "measure id") auto

declare str_nat.simps [simp del]

definition str_int :: "int \<Rightarrow> string" where
  "str_int i = (if i < 0 then CHR ''-'' # str_nat (nat (- i)) else str_nat (nat i))"

text \<open>
  Reading a decimal string back: an optional minus sign and at least one digit.
  This is Python's \<^verbatim>\<open>int(value)\<close> and the server's reading of a stored number on
  the strings that \<open>str_int\<close> writes; Python's \<^verbatim>\<open>int\<close> accepts more spellings
  (surrounding blanks, a plus sign, underscores), on which this function answers
  \<open>None\<close>.
\<close>

definition digit_val :: "char \<Rightarrow> nat option" where
  "digit_val c =
     map_of [(CHR ''0'', 0), (CHR ''1'', 1), (CHR ''2'', 2), (CHR ''3'', 3), (CHR ''4'', 4),
             (CHR ''5'', 5), (CHR ''6'', 6), (CHR ''7'', 7), (CHR ''8'', 8), (CHR ''9'', 9)] c"

fun parse_nat :: "nat \<Rightarrow> string \<Rightarrow> nat option" where
  "parse_nat acc [] = Some acc"
| "parse_nat acc (c # cs) =
     (case digit_val c of None \<Rightarrow> None | Some d \<Rightarrow> parse_nat (10 * acc + d) cs)"

definition parse_int :: "string \<Rightarrow> int option" where
  "parse_int s =
     (case s of
        [] \<Rightarrow> None
      | c # cs \<Rightarrow>
          if c = CHR ''-''
          then (if cs = [] then None else map_option (\<lambda>n. - int n) (parse_nat 0 cs))
          else map_option int (parse_nat 0 s))"

text \<open>
  Modelled from the spec: the server's atomic increment by \<open>d\<close> (section 6:
  "atomic integer adjustment, returns new value"). An absent key counts as 0, the
  entry keeps its expiry, and a value that is not a number is an error of the call.
\<close>

definition client_incrby :: "string \<Rightarrow> int \<Rightarrow> world \<Rightarrow> error + (int \<times> world)" where
  "client_incrby k d w =
     (if \<not> redis_up w then Inl ConnectionError
      else
        (case redis_lookup w k of
           None \<Rightarrow> Inr (d, w\<lparr>redis := (redis w)(k \<mapsto> (str_int d, None))\<rparr>)
         | Some v \<Rightarrow>
             (case parse_int v of
                None \<Rightarrow> Inl ResponseError
              | Some n \<Rightarrow>
                  Inr (n + d, w\<lparr>redis := (redis w)(k \<mapsto> (str_int (n + d), redis_ttl w k))\<rparr>))))"

definition concurrency_key :: "int \<Rightarrow> string \<Rightarrow> string" where
  "concurrency_key token_id lock_type =
     ''concurrency:'' @ str_int token_id @ '':'' @ lock_type"

text \<open>
  \<^verbatim>\<open>get_concurrency\<close>. The remote branch returns
  \<^verbatim>\<open>int(value) if value else 0\<close>, where \<^verbatim>\<open>None\<close> and the empty string are falsy
  and \<^verbatim>\<open>int\<close> raises \<^verbatim>\<open>ValueError\<close> on a string that is not a number. The local
  branch returns the dictionary's value as it is, 0 when the key is absent.
\<close>

definition get_concurrency :: "int \<Rightarrow> string \<Rightarrow> world \<Rightarrow> error + pyval" where
  "get_concurrency token_id lock_type w =
     (let key = concurrency_key token_id lock_type in
      if client w then
        (case client_get key w of
           Inl e \<Rightarrow> Inl e
         | Inr None \<Rightarrow> Inr (PInt 0)
         | Inr (Some v) \<Rightarrow>
             if v = [] then Inr (PInt 0)
             else (case parse_int v of None \<Rightarrow> Inl ValueError | Some n \<Rightarrow> Inr (PInt n)))
      else
        (case local_cache w key of None \<Rightarrow> Inr (PInt 0) | Some v \<Rightarrow> Inr v))"

text \<open>
  \<^verbatim>\<open>increment_concurrency\<close>. In the local branch \<^verbatim>\<open>current + 1\<close> raises
  \<^verbatim>\<open>TypeError\<close> when the dictionary holds a string under the key.
\<close>

definition increment_concurrency :: "int \<Rightarrow> string \<Rightarrow> world \<Rightarrow> error + (int \<times> world)" where
  "increment_concurrency token_id lock_type w =
     (let key = concurrency_key token_id lock_type in
      if client w then client_incrby key 1 w
      else
        (case (case local_cache w key of None \<Rightarrow> PInt 0 | Some v \<Rightarrow> v) of
           PStr s \<Rightarrow> Inl TypeError
         | PInt current \<Rightarrow>
             Inr (current + 1, w\<lparr>local_cache := (local_cache w)(key \<mapsto> PInt (current + 1))\<rparr>)))"

text \<open>
  \<^verbatim>\<open>decrement_concurrency\<close>. The remote branch decrements, and when the result is
  negative it sets the key to 0 with a second call and returns 0.
\<close>

definition decrement_concurrency :: "int \<Rightarrow> string \<Rightarrow> world \<Rightarrow> error + (int \<times> world)" where
  "decrement_concurrency token_id lock_type w =
     (let key = concurrency_key token_id lock_type in
      if client w then
        (case client_incrby key (- 1) w of
           Inl e \<Rightarrow> Inl e
         | Inr (result, w1) \<Rightarrow>
             if result < 0 then
               (case client_set key (str_int 0) None w1 of
                  Inl e \<Rightarrow> Inl e
                | Inr (b, w2) \<Rightarrow> Inr (0, w2))
             else Inr (result, w1))
      else
        (case (case local_cache w key of None \<Rightarrow> PInt 0 | Some v \<Rightarrow> v) of
           PStr s \<Rightarrow> Inl TypeError
         | PInt current \<Rightarrow>
             (let new_value = max 0 (current - 1) in
              Inr (new_value, w\<lparr>local_cache := (local_cache w)(key \<mapsto> PInt new_value)\<rparr>))))"

text \<open>
  The three counter operations, and a run of them from a state; the run stops at
  the first exception. A run returns the results in order and the final state.
\<close>

datatype counter_op = Get int string | Increment int string | Decrement int string

fun counter_step :: "counter_op \<Rightarrow> world \<Rightarrow> error + (pyval \<times> world)" where
  "counter_step (Get i l) w =
     (case get_concurrency i l w of Inl e \<Rightarrow> Inl e | Inr v \<Rightarrow> Inr (v, w))"
| "counter_step (Increment i l) w =
     (case increment_concurrency i l w of Inl e \<Rightarrow> Inl e | Inr (n, w') \<Rightarrow> Inr (PInt n, w'))"
| "counter_step (Decrement i l) w =
     (case decrement_concurrency i l w of Inl e \<Rightarrow> Inl e | Inr (n, w') \<Rightarrow> Inr (PInt n, w'))"

fun counter_run :: "counter_op list \<Rightarrow> world \<Rightarrow> error + (pyval list \<times> world)" where
  "counter_run [] w = Inr ([], w)"
| "counter_run (c # cs) w =
     (case counter_step c w of
        Inl e \<Rightarrow> Inl e
      | Inr (v, w1) \<Rightarrow>
          (case counter_run cs w1 of Inl e \<Rightarrow> Inl e | Inr (vs, w2) \<Rightarrow> Inr (v # vs, w2)))"

text \<open>
  The number stored under a key by the active backend, if there is one, and the
  state of a counter key that the counter operations maintain: the key is absent or
  holds a number that is not negative.
\<close>

definition counter_value :: "world \<Rightarrow> string \<Rightarrow> int option" where
  "counter_value w key =
     (if client w then (case redis_lookup w key of None \<Rightarrow> None | Some v \<Rightarrow> parse_int v)
      else (case local_cache w key of None \<Rightarrow> None | Some (PStr s) \<Rightarrow> None | Some (PInt n) \<Rightarrow> Some n))"

definition counter_ok :: "world \<Rightarrow> string \<Rightarrow> bool" where
  "counter_ok w key =
     (if client w then
        (case redis_lookup w key of
           None \<Rightarrow> True
         | Some v \<Rightarrow> (case parse_int v of None \<Rightarrow> False | Some n \<Rightarrow> 0 \<le> n))
      else
        (case local_cache w key of
           None \<Rightarrow> True
         | Some (PStr s) \<Rightarrow> False
         | Some (PInt n) \<Rightarrow> 0 \<le> n))"

definition counters_ok :: "world \<Rightarrow> bool" where
  "counters_ok w = (\<forall>i l. counter_ok w (concurrency_key i l))"

definition count_of :: "world \<Rightarrow> string \<Rightarrow> int" where
  "count_of w key = (case counter_value w key of None \<Rightarrow> 0 | Some n \<Rightarrow> n)"

text \<open>Writing a number under a counter key, as the increment does in either backend.\<close>

definition put_counter :: "string \<Rightarrow> int \<Rightarrow> world \<Rightarrow> world" where
  "put_counter key n w =
     (if client w then w\<lparr>redis := (redis w)(key \<mapsto> (str_int n, redis_ttl w key))\<rparr>
      else w\<lparr>local_cache := (local_cache w)(key \<mapsto> PInt n)\<rparr>)"

section \<open>Decimal strings\<close>

lemma digit_cases: "d < 10 \<Longrightarrow> d \<in> {0, 1, 2, 3, 4, 5, 6, 7, 8, 9::nat}"
  by auto

lemma digit_val_digit_char: "d < 10 \<Longrightarrow> digit_val (digit_char d) = Some d"
  by (drule digit_cases) (auto simp: digit_val_def digit_char_def)

lemma digit_char_not_minus: "d < 10 \<Longrightarrow> digit_char d \<noteq> CHR ''-''"
  by (drule digit_cases) (auto simp: digit_char_def)

lemma parse_nat_snoc:
  "d < 10 \<Longrightarrow>
   parse_nat acc (cs @ [digit_char d]) = map_option (\<lambda>a. 10 * a + d) (parse_nat acc cs)"
  by (induction cs arbitrary: acc) (auto simp: digit_val_digit_char split: option.splits)

lemma parse_nat_str_nat: "parse_nat 0 (str_nat n) = Some n"
proof (induction n rule: str_nat.induct)
  case (1 n)
  show ?case
  proof (cases "n < 10")
    case True
    then show ?thesis by (subst str_nat.simps) (simp add: digit_val_digit_char)
  next
    case False
    then have "parse_nat 0 (str_nat (n div 10)) = Some (n div 10)" using 1 by simp
    with False show ?thesis
      by (subst str_nat.simps) (simp add: parse_nat_snoc)
  qed
qed

lemma str_nat_nonempty: "str_nat n \<noteq> []"
  by (subst str_nat.simps) simp

lemma hd_str_nat_not_minus: "hd (str_nat n) \<noteq> CHR ''-''"
proof (induction n rule: str_nat.induct)
  case (1 n)
  show ?case
  proof (cases "n < 10")
    case True
    then show ?thesis
      by (subst str_nat.simps) (simp add: digit_char_not_minus)
  next
    case False
    with 1 show ?thesis
      by (subst str_nat.simps) (simp add: str_nat_nonempty)
  qed
qed

text \<open>Reading back what \<open>str_int\<close> wrote gives the number.\<close>

lemma parse_int_str_int [simp]: "parse_int (str_int i) = Some i"
proof (cases "i < 0")
  case True
  then show ?thesis
    by (simp add: parse_int_def str_int_def parse_nat_str_nat str_nat_nonempty)
next
  case False
  obtain c cs where e: "str_nat (nat i) = c # cs"
    using str_nat_nonempty[of "nat i"] by (cases "str_nat (nat i)") auto
  have "c \<noteq> CHR ''-''" using hd_str_nat_not_minus[of "nat i"] e by simp
  with False e show ?thesis
    using parse_nat_str_nat[of "nat i"]
    by (simp add: parse_int_def str_int_def)
qed

section \<open>The counter floor\<close>

lemma redis_lookup_upd:
  "redis_lookup (w\<lparr>redis := (redis w)(k \<mapsto> (v, e))\<rparr>) k' =
     (if k' = k then (case e of None \<Rightarrow> Some v | Some t \<Rightarrow> if now w < t then Some v else None)
      else redis_lookup w k')"
  by (auto simp: redis_lookup_def split: option.splits)

lemma redis_ttl_live: "redis_ttl w k = Some t \<Longrightarrow> now w < t"
  by (auto simp: redis_ttl_def split: option.splits if_splits)

lemma redis_lookup_incr:
  "redis_lookup (w\<lparr>redis := (redis w)(k \<mapsto> (v, redis_ttl w k))\<rparr>) k' =
     (if k' = k then Some v else redis_lookup w k')"
  by (cases "redis_ttl w k") (auto simp: redis_lookup_upd dest: redis_ttl_live)

lemma increment_eq:
  assumes "counter_ok w (concurrency_key i l)" "client w \<longrightarrow> redis_up w"
  shows "increment_concurrency i l w =
     Inr (count_of w (concurrency_key i l) + 1,
          put_counter (concurrency_key i l) (count_of w (concurrency_key i l) + 1) w)"
proof (cases "client w")
  case True
  with assms show ?thesis
    by (auto simp: increment_concurrency_def counter_ok_def counter_value_def count_of_def
      client_incrby_def put_counter_def Let_def redis_ttl_def redis_lookup_def
      split: option.splits)
next
  case False
  with assms show ?thesis
    by (auto simp: increment_concurrency_def counter_ok_def counter_value_def count_of_def
      put_counter_def Let_def split: option.splits pyval.splits)
qed

lemma counter_value_put [simp]: "counter_value (put_counter k n w) k = Some n"
  by (simp add: counter_value_def put_counter_def redis_lookup_incr)

lemma counter_ok_put:
  "counter_ok (put_counter k n w) k' = (if k' = k then 0 \<le> n else counter_ok w k')"
  by (simp add: counter_ok_def put_counter_def redis_lookup_incr)

lemma put_counter_client [simp]:
  "client (put_counter k n w) = client w" "redis_up (put_counter k n w) = redis_up w"
  by (simp_all add: put_counter_def)



lemma incrby_ok:
  assumes "counter_ok w k" "client w" "redis_up w"
  shows "client_incrby k d w =
     Inr (count_of w k + d, w\<lparr>redis := (redis w)(k \<mapsto> (str_int (count_of w k + d), redis_ttl w k))\<rparr>)"
  using assms
  by (auto simp: counter_ok_def counter_value_def count_of_def client_incrby_def
      redis_ttl_def redis_lookup_def split: option.splits)

lemma decrement_remote:
  assumes "counter_ok w (concurrency_key i l)" "client w" "redis_up w"
  shows "\<exists>w'. decrement_concurrency i l w = Inr (max 0 (count_of w (concurrency_key i l) - 1), w') \<and>
           counter_value w' (concurrency_key i l) = Some (max 0 (count_of w (concurrency_key i l) - 1)) \<and>
           client w' = client w \<and> redis_up w' = redis_up w \<and>
           (\<forall>k'. counter_ok w' k' = (if k' = concurrency_key i l then True else counter_ok w k'))"
proof -
  let ?k = "concurrency_key i l"
  let ?w1 = "w\<lparr>redis := (redis w)(?k \<mapsto> (str_int (count_of w ?k + - 1), redis_ttl w ?k))\<rparr>"
  let ?w2 = "w\<lparr>redis := (redis w)(?k \<mapsto> (str_int 0, None))\<rparr>"
  have 1: "client_incrby ?k (- 1) w = Inr (count_of w ?k + - 1, ?w1)"
    using assms by (rule incrby_ok)
  show ?thesis
  proof (cases "count_of w ?k - 1 < 0")
    case True
    have 2: "decrement_concurrency i l w = Inr (0, ?w2)"
      using assms True by (simp add: decrement_concurrency_def Let_def 1 client_set_def)
    have 3: "redis_lookup ?w2 k' = (if k' = ?k then Some (str_int 0) else redis_lookup w k')" for k'
      by (auto simp: redis_lookup_def split: option.splits)
    show ?thesis
      using assms True by (simp add: 2 counter_value_def counter_ok_def 3)
  next
    case False
    have 2: "decrement_concurrency i l w = Inr (count_of w ?k - 1, ?w1)"
      using assms False by (simp add: decrement_concurrency_def Let_def 1)
    show ?thesis
      using assms False by (simp add: 2 counter_value_def counter_ok_def redis_lookup_incr)
  qed
qed

lemma decrement_local_eq:
  assumes "counter_ok w (concurrency_key i l)" "\<not> client w"
  shows "decrement_concurrency i l w =
     Inr (max 0 (count_of w (concurrency_key i l) - 1),
          w\<lparr>local_cache := (local_cache w)
               (concurrency_key i l \<mapsto> PInt (max 0 (count_of w (concurrency_key i l) - 1)))\<rparr>)"
  using assms
  by (auto simp: decrement_concurrency_def counter_ok_def counter_value_def count_of_def
      Let_def split: option.splits pyval.splits)

lemma decrement_local:
  assumes "counter_ok w (concurrency_key i l)" "\<not> client w"
  shows "\<exists>w'. decrement_concurrency i l w = Inr (max 0 (count_of w (concurrency_key i l) - 1), w') \<and>
           counter_value w' (concurrency_key i l) = Some (max 0 (count_of w (concurrency_key i l) - 1)) \<and>
           client w' = client w \<and> redis_up w' = redis_up w \<and>
           (\<forall>k'. counter_ok w' k' = (if k' = concurrency_key i l then True else counter_ok w k'))"
  using assms
  by (simp add: decrement_local_eq counter_value_def counter_ok_def)


lemma parse_int_Nil [simp]: "parse_int [] = None"
  by (simp add: parse_int_def)

lemma get_eq:
  assumes "counter_ok w (concurrency_key i l)" "client w \<longrightarrow> redis_up w"
  shows "get_concurrency i l w = Inr (PInt (count_of w (concurrency_key i l)))"
proof (cases "client w")
  case True
  with assms show ?thesis
    by (auto simp: get_concurrency_def counter_ok_def counter_value_def count_of_def
      client_get_def Let_def split: option.splits)
next
  case False
  with assms show ?thesis
    by (auto simp: get_concurrency_def counter_ok_def counter_value_def count_of_def
      Let_def split: option.splits pyval.splits)
qed

lemma decrement_ok:
  assumes "counter_ok w (concurrency_key i l)" "client w \<longrightarrow> redis_up w"
  shows "\<exists>w'. decrement_concurrency i l w = Inr (max 0 (count_of w (concurrency_key i l) - 1), w') \<and>
           counter_value w' (concurrency_key i l) = Some (max 0 (count_of w (concurrency_key i l) - 1)) \<and>
           client w' = client w \<and> redis_up w' = redis_up w \<and>
           (\<forall>k'. counter_ok w' k' = (if k' = concurrency_key i l then True else counter_ok w k'))"
  using assms decrement_local[of w i l] decrement_remote[of w i l] by (cases "client w") simp_all

lemma count_of_nonneg: "counter_ok w k \<Longrightarrow> 0 \<le> count_of w k"
  by (auto simp: counter_ok_def count_of_def counter_value_def
      split: option.splits pyval.splits if_splits)

lemma increment_ok:
  assumes "counter_ok w (concurrency_key i l)" "client w \<longrightarrow> redis_up w"
  shows "\<exists>w'. increment_concurrency i l w = Inr (count_of w (concurrency_key i l) + 1, w') \<and>
           counter_value w' (concurrency_key i l) = Some (count_of w (concurrency_key i l) + 1) \<and>
           client w' = client w \<and> redis_up w' = redis_up w \<and>
           (\<forall>k'. counter_ok w' k' = (if k' = concurrency_key i l then True else counter_ok w k'))"
proof -
  have "0 \<le> count_of w (concurrency_key i l)"
    using assms(1) by (rule count_of_nonneg)
  then show ?thesis
    using assms by (simp add: increment_eq counter_ok_put)
qed

lemma counter_step_ok:
  assumes "counters_ok w" "client w \<longrightarrow> redis_up w"
  shows "\<exists>n w'. counter_step c w = Inr (PInt n, w') \<and> 0 \<le> n \<and> counters_ok w' \<and>
           (client w' \<longrightarrow> redis_up w')"
proof (cases c)
  case (Get i l)
  have "0 \<le> count_of w (concurrency_key i l)"
    using assms(1) by (simp add: counters_ok_def count_of_nonneg)
  with assms Get show ?thesis by (simp add: get_eq counters_ok_def)
next
  case (Increment i l)
  have "0 \<le> count_of w (concurrency_key i l)"
    using assms(1) by (simp add: counters_ok_def count_of_nonneg)
  moreover obtain w' where "increment_concurrency i l w = Inr (count_of w (concurrency_key i l) + 1, w')"
    "client w' = client w" "redis_up w' = redis_up w"
    "\<forall>k'. counter_ok w' k' = (if k' = concurrency_key i l then True else counter_ok w k')"
    using increment_ok[of w i l] assms by (auto simp: counters_ok_def)
  ultimately show ?thesis using assms Increment by (simp add: counters_ok_def)
next
  case (Decrement i l)
  obtain w' where "decrement_concurrency i l w = Inr (max 0 (count_of w (concurrency_key i l) - 1), w')"
    "client w' = client w" "redis_up w' = redis_up w"
    "\<forall>k'. counter_ok w' k' = (if k' = concurrency_key i l then True else counter_ok w k')"
    using decrement_ok[of w i l] assms by (auto simp: counters_ok_def)
  then show ?thesis using assms Decrement by (simp add: counters_ok_def)
qed

lemma counter_run_ok:
  assumes "counters_ok w" "client w \<longrightarrow> redis_up w"
  shows "\<exists>vs w'. counter_run cs w = Inr (vs, w') \<and> counters_ok w' \<and>
           (\<forall>v \<in> set vs. \<exists>n. v = PInt n \<and> 0 \<le> n)"
  using assms
proof (induction cs arbitrary: w)
  case Nil
  then show ?case by simp
next
  case (Cons c cs)
  obtain n w1 where s: "counter_step c w = Inr (PInt n, w1)" "0 \<le> n" "counters_ok w1"
    "client w1 \<longrightarrow> redis_up w1"
    using counter_step_ok[OF Cons.prems] by blast
  obtain vs w2 where r: "counter_run cs w1 = Inr (vs, w2)" "counters_ok w2"
    "\<forall>v \<in> set vs. \<exists>n. v = PInt n \<and> 0 \<le> n"
    using Cons.IH[OF s(3) s(4)] by blast
  show ?case using s r by simp
qed

text \<open>
  Claim C5. From a state in which every counter key is absent or holds a number
  that is not negative, and with the server reachable when the backend is remote,
  every run of get, increment and decrement operations completes, returns numbers
  that are not negative and leaves every counter key absent or not negative. A get
  on an absent counter returns 0, an increment returns the count plus one and
  stores it, and a decrement returns and stores the count minus one, or 0 when
  that would be negative, so a decrement of an absent or zero counter gives 0.
\<close>

theorem counter_floor:
  assumes "counters_ok w" and "client w \<longrightarrow> redis_up w"
  shows "(\<exists>vs w'. counter_run cs w = Inr (vs, w') \<and> counters_ok w' \<and>
            (\<forall>v \<in> set vs. \<exists>n. v = PInt n \<and> 0 \<le> n)) \<and>
         (counter_value w (concurrency_key i l) = None \<longrightarrow>
            get_concurrency i l w = Inr (PInt 0)) \<and>
         (\<exists>w'. increment_concurrency i l w = Inr (count_of w (concurrency_key i l) + 1, w') \<and>
            counter_value w' (concurrency_key i l) = Some (count_of w (concurrency_key i l) + 1)) \<and>
         (\<exists>w'. decrement_concurrency i l w =
                 Inr (max 0 (count_of w (concurrency_key i l) - 1), w') \<and>
            counter_value w' (concurrency_key i l) =
              Some (max 0 (count_of w (concurrency_key i l) - 1)))"
proof -
  have k: "counter_ok w (concurrency_key i l)"
    using assms(1) by (simp add: counters_ok_def)
  have "counter_value w (concurrency_key i l) = None \<longrightarrow> get_concurrency i l w = Inr (PInt 0)"
    using get_eq[OF k assms(2)] by (simp add: count_of_def)
  moreover have "\<exists>w'. increment_concurrency i l w = Inr (count_of w (concurrency_key i l) + 1, w') \<and>
      counter_value w' (concurrency_key i l) = Some (count_of w (concurrency_key i l) + 1)"
    using increment_ok[OF k assms(2)] by blast
  moreover have "\<exists>w'. decrement_concurrency i l w =
        Inr (max 0 (count_of w (concurrency_key i l) - 1), w') \<and>
      counter_value w' (concurrency_key i l) = Some (max 0 (count_of w (concurrency_key i l) - 1))"
    using decrement_ok[OF k assms(2)] by blast
  ultimately show ?thesis
    using counter_run_ok[OF assms] by blast
qed

theorem counter_floor_witness:
  "counters_ok (init_manager Map.empty False 0) \<and>
   (\<exists>vs w'. counter_run [Decrement 7 ''image'', Increment 7 ''image'', Decrement 7 ''image'',
                Decrement 7 ''image'', Get 7 ''image''] (init_manager Map.empty False 0) =
              Inr (vs, w') \<and> counters_ok w') \<and>
   get_concurrency 7 ''image'' (init_manager Map.empty False 0) = Inr (PInt 0) \<and>
   fst (projr (decrement_concurrency 7 ''image'' (init_manager Map.empty False 0))) = 0"
proof -
  have a: "counters_ok (init_manager Map.empty False 0)"
    by (simp add: counters_ok_def counter_ok_def init_manager_def)
  have b: "client (init_manager Map.empty False 0) \<longrightarrow> redis_up (init_manager Map.empty False 0)"
    by (simp add: init_manager_def)
  have c: "counter_value (init_manager Map.empty False 0) (concurrency_key 7 ''image'') = None"
    by (simp add: counter_value_def init_manager_def)
  have d: "count_of (init_manager Map.empty False 0) (concurrency_key 7 ''image'') = 0"
    by (simp add: count_of_def c)
  from counter_floor [OF a b,
      of "[Decrement 7 ''image'', Increment 7 ''image'', Decrement 7 ''image'',
           Decrement 7 ''image'', Get 7 ''image'']" 7 "''image''"]
  show ?thesis using a c d by auto
qed

section \<open>Ownership-gated release\<close>

lemma redis_lookup_delete [simp]:
  "redis_lookup (w\<lparr>redis := (redis w)(k := None)\<rparr>) k = None"
  by (simp add: redis_lookup_def)



end
